theory Spec2Isabelle
  imports Main "HOL-Library.Word"
begin

unbundle bit_operations_syntax

section \<open>Python values\<close>

text \<open>
  The values that travel through \<^verbatim>\<open>scripts/import_overture_us.py\<close>: what DuckDB
  puts into a row tuple and what \<^verbatim>\<open>json.loads\<close> returns. A float is held as
  its IEEE 754 bit pattern, a \<^verbatim>\<open>dict\<close> as an association list in insertion
  order with pairwise different keys.
\<close>

datatype pyval =
    PNone
  | PBool bool
  | PInt int
  | PFloat "64 word"
  | PStr string
  | PList "pyval list"
  | PDict "(string \<times> pyval) list"

type_synonym pydict = "(string \<times> pyval) list"

type_synonym row = "pyval list"

text \<open>
  Exceptions. \<open>Raised\<close> stands for any exception of a library (the JSON decoder, the
  store client), with its \<^verbatim>\<open>str()\<close>.
\<close>

datatype exn =
    KeyError string
  | TypeError string
  | Raised string

text \<open>\<^verbatim>\<open>str(e)\<close>: a \<^verbatim>\<open>KeyError\<close> prints the \<^verbatim>\<open>repr\<close> of its key.\<close>

fun exn_str :: "exn \<Rightarrow> string" where
  "exn_str (KeyError k) = [CHR 0x27] @ k @ [CHR 0x27]"
| "exn_str (TypeError m) = m"
| "exn_str (Raised m) = m"

text \<open>Truth value of a Python object, as \<^verbatim>\<open>if x:\<close> tests it.\<close>

fun py_truthy :: "pyval \<Rightarrow> bool" where
  "py_truthy PNone = False"
| "py_truthy (PBool b) = b"
| "py_truthy (PInt i) = (i \<noteq> 0)"
| "py_truthy (PFloat w) = (w AND 0x7FFFFFFFFFFFFFFF \<noteq> 0)"
| "py_truthy (PStr s) = (s \<noteq> [])"
| "py_truthy (PList xs) = (xs \<noteq> [])"
| "py_truthy (PDict d) = (d \<noteq> [])"

text \<open>
  \<^verbatim>\<open>list(x)\<close>: a list is copied, a string gives its characters, a dict its keys;
  anything else is not iterable.
\<close>

fun py_list :: "pyval \<Rightarrow> exn + pyval list" where
  "py_list (PList xs) = Inr xs"
| "py_list (PStr s) = Inr (map (\<lambda>c. PStr [c]) s)"
| "py_list (PDict d) = Inr (map (\<lambda>kv. PStr (fst kv)) d)"
| "py_list PNone = Inl (TypeError '''NoneType' object is not iterable'')"
| "py_list (PBool b) = Inl (TypeError '''bool' object is not iterable'')"
| "py_list (PInt i) = Inl (TypeError '''int' object is not iterable'')"
| "py_list (PFloat w) = Inl (TypeError '''float' object is not iterable'')"

subsection \<open>Dictionaries\<close>

text \<open>\<^verbatim>\<open>d[k] = v\<close>: an existing key keeps its place, a new key goes last.\<close>

fun dict_set :: "string \<Rightarrow> pyval \<Rightarrow> pydict \<Rightarrow> pydict" where
  "dict_set k v [] = [(k, v)]"
| "dict_set k v (p # ps) = (if fst p = k then (k, v) # ps else p # dict_set k v ps)"

text \<open>\<^verbatim>\<open>d.get(k)\<close> as an option.\<close>

definition dict_get :: "pydict \<Rightarrow> string \<Rightarrow> pyval option" where
  "dict_get d k = map_of d k"

text \<open>\<^verbatim>\<open>d.get(k, default)\<close>.\<close>

definition dict_get_default :: "pydict \<Rightarrow> string \<Rightarrow> pyval \<Rightarrow> pyval" where
  "dict_get_default d k dflt = (case dict_get d k of None \<Rightarrow> dflt | Some v \<Rightarrow> v)"

text \<open>\<^verbatim>\<open>d[k]\<close>: raises \<^verbatim>\<open>KeyError(k)\<close> when the key is absent.\<close>

definition subscript :: "pydict \<Rightarrow> string \<Rightarrow> exn + pyval" where
  "subscript d k = (case dict_get d k of None \<Rightarrow> Inl (KeyError k) | Some v \<Rightarrow> Inr v)"

text \<open>
  \<^verbatim>\<open>dict(zip(columns, row))\<close>: \<open>zip\<close> stops at the shorter sequence, and
  \<^verbatim>\<open>dict\<close> inserts the pairs from left to right.
\<close>

definition dict_zip :: "string list \<Rightarrow> row \<Rightarrow> pydict" where
  "dict_zip columns r = foldl (\<lambda>d kv. dict_set (fst kv) (snd kv) d) [] (zip columns r)"

section \<open>The environment of the scripts\<close>

text \<open>
  What the scripts call and do not define: the JSON codec of the standard library
  (\<^verbatim>\<open>json.loads\<close>, and \<^verbatim>\<open>json.dumps(_, default=str)\<close>), the formatting of a
  value inside an f-string, and the clock, whose \<open>n\<close>-th reading is
  \<^verbatim>\<open>datetime.utcnow().isoformat()\<close>. They are parameters of the model.
\<close>

record pyenv =
  json_loads :: "string \<Rightarrow> exn + pyval"
  json_dumps_default_str :: "pyval \<Rightarrow> exn + string"
  py_str :: "pyval \<Rightarrow> string"
  utcnow_isoformat :: "nat \<Rightarrow> string"

section \<open>The record transformer\<close>

definition OVERTURE_VERSION :: string where
  "OVERTURE_VERSION = ''2025-11-19.0''"

definition BATCH_SIZE :: nat where
  "BATCH_SIZE = 500"

definition array_fields :: "string list" where
  "array_fields = [''alternate_categories'', ''websites'', ''socials'', ''phones'', ''emails'']"

text \<open>
  The loop over the array fields (lines 127 to 131): a truthy value becomes
  \<^verbatim>\<open>list(value)\<close>, every other value becomes \<^verbatim>\<open>None\<close>.
\<close>

fun handle_arrays :: "string list \<Rightarrow> pydict \<Rightarrow> exn + pydict" where
  "handle_arrays [] record = Inr record"
| "handle_arrays (arr_field # rest) record =
     (case subscript record arr_field of
        Inl e \<Rightarrow> Inl e
      | Inr v \<Rightarrow>
          if py_truthy v then
            (case py_list v of
               Inl e \<Rightarrow> Inl e
             | Inr xs \<Rightarrow> handle_arrays rest (dict_set arr_field (PList xs) record))
          else handle_arrays rest (dict_set arr_field PNone record))"

text \<open>
  The JSON column (lines 134 to 138): a non-empty string is parsed, a non-empty dict is
  written out and parsed again, every other value stays.
\<close>

definition handle_json :: "pyenv \<Rightarrow> pydict \<Rightarrow> exn + pydict" where
  "handle_json env record =
     (case subscript record ''raw'' of
        Inl e \<Rightarrow> Inl e
      | Inr v \<Rightarrow>
          if py_truthy v then
            (case v of
               PStr s \<Rightarrow>
                 (case json_loads env s of
                    Inl e \<Rightarrow> Inl e
                  | Inr j \<Rightarrow> Inr (dict_set ''raw'' j record))
             | PDict d \<Rightarrow>
                 (case json_dumps_default_str env v of
                    Inl e \<Rightarrow> Inl e
                  | Inr s \<Rightarrow>
                      (case json_loads env s of
                         Inl e \<Rightarrow> Inl e
                       | Inr j \<Rightarrow> Inr (dict_set ''raw'' j record)))
             | _ \<Rightarrow> Inr record)
          else Inr record)"

text \<open>The metadata (lines 141 to 143); \<open>tick\<close> counts the clock readings made so far.\<close>

definition add_metadata :: "pyenv \<Rightarrow> nat \<Rightarrow> pydict \<Rightarrow> pydict" where
  "add_metadata env tick record =
     dict_set ''updated_at'' (PStr (utcnow_isoformat env (tick + 1)))
       (dict_set ''overture_updated_at'' (PStr (utcnow_isoformat env tick))
          (dict_set ''overture_version'' (PStr OVERTURE_VERSION) record))"

definition transform_record :: "pyenv \<Rightarrow> nat \<Rightarrow> row \<Rightarrow> string list \<Rightarrow> exn + pydict" where
  "transform_record env tick r columns =
     (case handle_arrays array_fields (dict_zip columns r) of
        Inl e \<Rightarrow> Inl e
      | Inr record1 \<Rightarrow>
          (case handle_json env record1 of
             Inl e \<Rightarrow> Inl e
           | Inr record2 \<Rightarrow> Inr (add_metadata env tick record2)))"

section \<open>The queries\<close>

text \<open>\<^verbatim>\<open>str(n)\<close> of an integer, needed where a number is written into a query.\<close>

definition digit :: "nat \<Rightarrow> char" where
  "digit n = ''0123456789'' ! (n mod 10)"

function str_nat :: "nat \<Rightarrow> string" where
  "str_nat n = (if n < 10 then [digit n] else str_nat (n div 10) @ [digit n])"
  by pat_completeness auto
termination
  by (relation "measure id") auto

declare str_nat.simps [simp del]

definition str_int :: "int \<Rightarrow> string" where
  "str_int i = (if i < 0 then ''-'' @ str_nat (nat (- i)) else str_nat (nat i))"

text \<open>A text between single quotes, and \<^verbatim>\<open>sep.join(xs)\<close>.\<close>

definition sq :: "string \<Rightarrow> string" where
  "sq s = [CHR 0x27] @ s @ [CHR 0x27]"

fun join :: "string \<Rightarrow> string list \<Rightarrow> string" where
  "join sep [] = []"
| "join sep [x] = x"
| "join sep (x # y # zs) = x @ sep @ join sep (y # zs)"

definition OVERTURE_PATH :: string where
  "OVERTURE_PATH =
     ''s3://overturemaps-us-west-2/release/'' @ OVERTURE_VERSION @ ''/theme=places/*/*''"

text \<open>The filter shared by \<^verbatim>\<open>build_query\<close> and \<^verbatim>\<open>count_records\<close>.\<close>

definition where_clause :: "string option \<Rightarrow> string option \<Rightarrow> string" where
  "where_clause category state =
     join '' AND ''
       ([''addresses[1].country = '' @ sq ''US'',
         ''ST_X(geometry) BETWEEN -180 AND -65'',
         ''ST_Y(geometry) BETWEEN 18 AND 72'']
        @ (case category of
             Some c \<Rightarrow> if c \<noteq> [] then [''categories.primary = '' @ sq c] else []
           | None \<Rightarrow> [])
        @ (case state of
             Some st \<Rightarrow> if st \<noteq> [] then [''addresses[1].region = '' @ sq st] else []
           | None \<Rightarrow> []))"

definition nl :: string where
  "nl = [CHR 0x0A]"

definition select_text :: "string \<Rightarrow> string" where
  "select_text wc =
     nl @ ''    SELECT'' @ nl @
     ''        id,'' @ nl @
     ''        names.primary AS name,'' @ nl @
     ''        confidence,'' @ nl @
     ''        categories.primary AS primary_category,'' @ nl @
     ''        categories.alternate AS alternate_categories,'' @ nl @
     ''        brand.names.primary AS brand,'' @ nl @
     ''        operating_status,'' @ nl @
     ''        websites,'' @ nl @
     ''        socials,'' @ nl @
     ''        phones,'' @ nl @
     ''        emails,'' @ nl @
     ''        addresses[1].freeform AS street,'' @ nl @
     ''        addresses[1].locality AS city,'' @ nl @
     ''        addresses[1].region AS state,'' @ nl @
     ''        addresses[1].postcode AS postcode,'' @ nl @
     ''        addresses[1].country AS country,'' @ nl @
     ''        ST_X(geometry) AS lon,'' @ nl @
     ''        ST_Y(geometry) AS lat,'' @ nl @
     ''        to_json(struct_pack('' @ nl @
     ''            sources := sources,'' @ nl @
     ''            bbox := bbox,'' @ nl @
     ''            version := version,'' @ nl @
     ''            basic_category := basic_category'' @ nl @
     ''        )) AS raw'' @ nl @
     ''    FROM read_parquet('' @ sq OVERTURE_PATH @ '')'' @ nl @
     ''    WHERE '' @ wc @ nl @
     ''    ''"

text \<open>
  \<^verbatim>\<open>build_query\<close> (lines 64 to 119): the cap is a \<^verbatim>\<open>LIMIT\<close> clause of the query,
  written when \<^verbatim>\<open>if limit:\<close> holds, that is for a number other than zero.
\<close>

definition build_query :: "int option \<Rightarrow> string option \<Rightarrow> string option \<Rightarrow> string" where
  "build_query limit category state =
     (let query = select_text (where_clause category state)
      in case limit of
           Some n \<Rightarrow> if n \<noteq> 0 then query @ '' LIMIT '' @ str_int n else query
         | None \<Rightarrow> query)"

text \<open>The query of \<^verbatim>\<open>count_records\<close> (lines 148 to 169).\<close>

definition count_query :: "string option \<Rightarrow> string option \<Rightarrow> string" where
  "count_query category state =
     nl @ ''    SELECT COUNT(*) FROM read_parquet('' @ sq OVERTURE_PATH @ '')'' @ nl @
     ''    WHERE '' @ where_clause category state @ nl @
     ''    ''"

section \<open>The bulk load pipeline\<close>

text \<open>
  The two outside systems are seen through the calls the script makes. Every call is
  written to a trace, in order. The store is a state \<open>'s\<close> with one operation,
  \<^verbatim>\<open>supabase.table(t).upsert(payload, on_conflict=c).execute()\<close>, which returns the
  exception it raises, if any. The payload is a list of records or one record.
\<close>

datatype payload = Rows "pydict list" | Row pydict

datatype event =
    Db_execute string
  | Db_fetchone int
  | Db_fetchmany nat "row list"
  | Upsert string payload string
  | Print_records_to_import int
  | Print_dry_run
  | Input_continue int
  | Print_aborted
  | Print_import_complete nat nat "string list"
  | Sys_exit nat

type_synonym 's upsert_execute = "'s \<Rightarrow> string \<Rightarrow> payload \<Rightarrow> string \<Rightarrow> exn option \<times> 's"

record 's load_state =
  imported :: nat
  errors :: nat
  error_samples :: "string list"
  store :: 's
  tick :: nat
  trace :: "event list"

text \<open>The rows of one page (lines 243 to 251): a row whose transform raises is counted
  and skipped.\<close>

fun transform_rows ::
  "pyenv \<Rightarrow> string list \<Rightarrow> row list \<Rightarrow> pydict list \<Rightarrow> 's load_state
   \<Rightarrow> pydict list \<times> 's load_state" where
  "transform_rows env columns [] batch st = (batch, st)"
| "transform_rows env columns (r # rows) batch st =
     (case transform_record env (tick st) r columns of
        Inr record \<Rightarrow>
          transform_rows env columns rows (batch @ [record]) (st\<lparr>tick := tick st + 2\<rparr>)
      | Inl e \<Rightarrow>
          transform_rows env columns rows batch
            (st\<lparr>errors := errors st + 1,
                error_samples :=
                  (if length (error_samples st) < 5
                   then error_samples st @ [''Transform error: '' @ exn_str e]
                   else error_samples st)\<rparr>))"

text \<open>The records of a failed batch, one by one (lines 263 to 273).\<close>

fun upsert_each :: "pyenv \<Rightarrow> 's upsert_execute \<Rightarrow> pydict list \<Rightarrow> 's load_state \<Rightarrow> 's load_state" where
  "upsert_each env up [] st = st"
| "upsert_each env up (record # rest) st =
     (case up (store st) ''places'' (Row record) ''id'' of
        (None, s') \<Rightarrow>
          upsert_each env up rest
            (st\<lparr>store := s',
                trace := trace st @ [Upsert ''places'' (Row record) ''id''],
                imported := imported st + 1\<rparr>)
      | (Some e2, s') \<Rightarrow>
          upsert_each env up rest
            (st\<lparr>store := s',
                trace := trace st @ [Upsert ''places'' (Row record) ''id''],
                errors := errors st + 1,
                error_samples :=
                  (if length (error_samples st) < 5
                   then error_samples st @
                     [''Insert error for '' @
                      py_str env (dict_get_default record ''id'' (PStr ''?'')) @
                      '': '' @ exn_str e2]
                   else error_samples st)\<rparr>))"

text \<open>The write of one page (lines 253 to 273): nothing for an empty batch, else the
  whole batch, and the records one by one when that raises.\<close>

definition write_batch :: "pyenv \<Rightarrow> 's upsert_execute \<Rightarrow> pydict list \<Rightarrow> 's load_state \<Rightarrow> 's load_state" where
  "write_batch env up batch st =
     (if batch = [] then st
      else
        (case up (store st) ''places'' (Rows batch) ''id'' of
           (None, s') \<Rightarrow>
             st\<lparr>store := s',
                trace := trace st @ [Upsert ''places'' (Rows batch) ''id''],
                imported := imported st + length batch\<rparr>
         | (Some e, s') \<Rightarrow>
             upsert_each env up batch
               (st\<lparr>store := s',
                   trace := trace st @ [Upsert ''places'' (Rows batch) ''id'']\<rparr>)))"

text \<open>One turn of the loop after a page with rows came back.\<close>

definition process_page ::
  "pyenv \<Rightarrow> 's upsert_execute \<Rightarrow> string list \<Rightarrow> row list \<Rightarrow> 's load_state \<Rightarrow> 's load_state" where
  "process_page env up columns rows st =
     (case transform_rows env columns rows [] st of
        (batch, st') \<Rightarrow> write_batch env up batch st')"

text \<open>
  The loop (lines 238 to 275). \<open>cursor\<close> holds the rows the result of the query has yet
  to deliver; \<^verbatim>\<open>result.fetchmany(n)\<close> takes the next \<open>n\<close> of them.
\<close>

function import_loop ::
  "pyenv \<Rightarrow> 's upsert_execute \<Rightarrow> string list \<Rightarrow> row list \<Rightarrow> 's load_state \<Rightarrow> 's load_state" where
  "import_loop env up columns cursor st =
     (let rows = take BATCH_SIZE cursor;
          st1 = st\<lparr>trace := trace st @ [Db_fetchmany BATCH_SIZE rows]\<rparr>
      in if rows = [] then st1
         else import_loop env up columns (drop BATCH_SIZE cursor)
                (process_page env up columns rows st1))"
  by pat_completeness auto
termination
  by (relation "measure (\<lambda>(env, up, columns, cursor, st). length cursor)")
     (auto simp: BATCH_SIZE_def)

declare import_loop.simps [simp del]

subsection \<open>The script\<close>

record args =
  limit :: "int option"
  category :: "string option"
  state :: "string option"
  dry_run :: bool
  yes :: bool

text \<open>
  What the run meets outside: the two environment variables, what DuckDB answers to the
  count query and which rows the result of a query delivers, the store's upsert, and the
  line typed at the prompt.
\<close>

record 's world =
  SUPABASE_URL :: "string option"
  SUPABASE_SERVICE_KEY :: "string option"
  count_result :: "string \<Rightarrow> int"
  query_result :: "string \<Rightarrow> row list"
  upsert :: "'s upsert_execute"
  input_line :: string

definition columns :: "string list" where
  "columns =
     [''id'', ''name'', ''confidence'', ''primary_category'', ''alternate_categories'',
      ''brand'', ''operating_status'', ''websites'', ''socials'', ''phones'', ''emails'',
      ''street'', ''city'', ''state'', ''postcode'', ''country'', ''lon'', ''lat'', ''raw'']"

text \<open>\<^verbatim>\<open>not url or not key\<close> of \<^verbatim>\<open>get_supabase_client\<close>.\<close>

definition credentials_missing :: "'s world \<Rightarrow> bool" where
  "credentials_missing w =
     (SUPABASE_URL w = None \<or> SUPABASE_URL w = Some [] \<or>
      SUPABASE_SERVICE_KEY w = None \<or> SUPABASE_SERVICE_KEY w = Some [])"

text \<open>The statements of \<^verbatim>\<open>setup_duckdb\<close>.\<close>

definition setup_duckdb :: "event list" where
  "setup_duckdb =
     [Db_execute ''INSTALL spatial; INSTALL httpfs;'',
      Db_execute ''LOAD spatial; LOAD httpfs;'',
      Db_execute (''SET s3_region='' @ sq ''us-west-2'' @ '';'')]"

text \<open>\<^verbatim>\<open>confirm.lower() != 'y'\<close>.\<close>

definition declined :: "string \<Rightarrow> bool" where
  "declined confirm = (confirm \<noteq> ''y'' \<and> confirm \<noteq> ''Y'')"

definition initial_state :: "'s \<Rightarrow> 's load_state" where
  "initial_state s =
     \<lparr>imported = 0, errors = 0, error_samples = [], store = s, tick = 0, trace = []\<rparr>"

definition log :: "event list \<Rightarrow> 's load_state \<Rightarrow> 's load_state" where
  "log es st = st\<lparr>trace := trace st @ es\<rparr>"

text \<open>
  \<^verbatim>\<open>main\<close> of \<^verbatim>\<open>import_overture_us.py\<close> (lines 172 to 296). Of what it prints, the
  lines that carry a result are kept as events.
\<close>

definition main :: "pyenv \<Rightarrow> 's world \<Rightarrow> args \<Rightarrow> 's \<Rightarrow> 's load_state" where
  "main env w a s =
     (if credentials_missing w then log [Sys_exit 1] (initial_state s)
      else
        let cq = count_query (category a) (state a);
            counted = count_result w cq;
            total = (case limit a of
                       Some n \<Rightarrow> if n \<noteq> 0 then min counted n else counted
                     | None \<Rightarrow> counted);
            st0 = log (setup_duckdb @
                       [Db_execute cq, Db_fetchone counted, Print_records_to_import total])
                    (initial_state s)
        in if dry_run a then log [Print_dry_run] st0
           else if total > 10000 \<and> \<not> yes a \<and> declined (input_line w)
             then log [Input_continue total, Print_aborted] st0
           else
             let st1 = (if total > 10000 \<and> \<not> yes a then log [Input_continue total] st0
                        else st0);
                 query = build_query (limit a) (category a) (state a);
                 st2 = import_loop env (upsert w) columns (query_result w query)
                         (log [Db_execute query] st1)
             in log [Print_import_complete (imported st2) (errors st2) (error_samples st2)]
                  st2)"

section \<open>The bulk delete pipeline\<close>

text \<open>
  \<^verbatim>\<open>scripts/clear_places.py\<close>. The table is the list of the identifiers of its rows.
  Which rows \<^verbatim>\<open>select('id').limit(n)\<close> returns is the store's choice: \<open>page_of n xs\<close>
  is the page it returns from the table \<open>xs\<close>. \<^verbatim>\<open>delete().in_('id', ids)\<close> removes the
  rows whose identifier is among \<open>ids\<close>.
\<close>

datatype 'a clear_event =
    Select_count nat
  | Print_already_empty
  | Print_current_count nat
  | Input_sure
  | Print_clear_aborted
  | Select_ids nat "'a list"
  | Delete_in "'a list"
  | Print_deleted nat nat
  | Print_done nat

record 'a clear_state =
  table :: "'a list"
  deleted :: nat
  clear_trace :: "'a clear_event list"

definition delete_in :: "'a list \<Rightarrow> 'a list \<Rightarrow> 'a list" where
  "delete_in ids xs = filter (\<lambda>x. x \<notin> set ids) xs"

text \<open>The loop (lines 54 to 62). Nothing in it bounds the number of turns, so not
  returning is the value \<open>None\<close>.\<close>

partial_function (option) clear_loop ::
  "(nat \<Rightarrow> 'a list \<Rightarrow> 'a list) \<Rightarrow> nat \<Rightarrow> 'a clear_state \<Rightarrow> 'a clear_state option" where
  "clear_loop page_of count st =
     (let ids = page_of 1000 (table st);
          st1 = st\<lparr>clear_trace := clear_trace st @ [Select_ids 1000 ids]\<rparr>
      in if ids = [] then Some st1
         else clear_loop page_of count
                (st1\<lparr>table := delete_in ids (table st1),
                     deleted := deleted st1 + length ids,
                     clear_trace := clear_trace st1 @
                       [Delete_in ids, Print_deleted (deleted st1 + length ids) count]\<rparr>))"

text \<open>\<^verbatim>\<open>main\<close> of \<^verbatim>\<open>clear_places.py\<close> (lines 32 to 64), after the client exists.\<close>

definition clear_main :: "(nat \<Rightarrow> 'a list \<Rightarrow> 'a list) \<Rightarrow> string \<Rightarrow> 'a list \<Rightarrow> 'a clear_state option" where
  "clear_main page_of confirm xs =
     (let total = length xs;
          st0 = \<lparr>table = xs, deleted = 0, clear_trace = [Select_count total]\<rparr>
      in if total = 0
           then Some (st0\<lparr>clear_trace := clear_trace st0 @ [Print_already_empty]\<rparr>)
         else if declined confirm
           then Some (st0\<lparr>clear_trace := clear_trace st0 @
                  [Print_current_count total, Input_sure, Print_clear_aborted]\<rparr>)
         else
           (case clear_loop page_of total
                   (st0\<lparr>clear_trace := clear_trace st0 @ [Print_current_count total, Input_sure]\<rparr>) of
              None \<Rightarrow> None
            | Some st \<Rightarrow>
                Some (st\<lparr>clear_trace := clear_trace st @ [Print_done (deleted st)]\<rparr>)))"

text \<open>The identifiers fetched and the identifiers deleted, turn by turn.\<close>

fun fetches :: "'a clear_event list \<Rightarrow> 'a list list" where
  "fetches [] = []"
| "fetches (Select_ids n ids # es) = ids # fetches es"
| "fetches (e # es) = fetches es"

fun deletes :: "'a clear_event list \<Rightarrow> 'a list list" where
  "deletes [] = []"
| "deletes (Delete_in ids # es) = ids # deletes es"
| "deletes (e # es) = deletes es"

text \<open>
  What the run needs from the store (section 4.4 and section 6 of the specification):
  a page read returns rows of the table, each once, and as many as the limit allows.
\<close>

definition page_read :: "(nat \<Rightarrow> 'a list \<Rightarrow> 'a list) \<Rightarrow> bool" where
  "page_read page_of =
     (\<forall>n xs. distinct xs \<longrightarrow>
        distinct (page_of n xs) \<and> set (page_of n xs) \<subseteq> set xs \<and>
        length (page_of n xs) = min n (length xs))"

section \<open>Reading a run\<close>

text \<open>The keys written by \<^verbatim>\<open>transform_record\<close> itself, and a record without its two
  time stamps.\<close>

definition metadata_keys :: "string list" where
  "metadata_keys = [''overture_version'', ''overture_updated_at'', ''updated_at'']"

definition strip_stamps :: "pydict \<Rightarrow> pydict" where
  "strip_stamps d = filter (\<lambda>kv. fst kv \<noteq> ''overture_updated_at'' \<and> fst kv \<noteq> ''updated_at'') d"

text \<open>
  The rows on which nothing in \<^verbatim>\<open>transform_record\<close> raises: each array field is there
  and, when truthy, iterable; \<^verbatim>\<open>raw\<close> is there and, when a non-empty text or dict,
  accepted by the JSON codec.
\<close>

definition array_ok :: "pydict \<Rightarrow> string \<Rightarrow> bool" where
  "array_ok d f =
     (case dict_get d f of
        None \<Rightarrow> False
      | Some v \<Rightarrow> if py_truthy v then \<not> isl (py_list v) else True)"

definition raw_ok :: "pyenv \<Rightarrow> pydict \<Rightarrow> bool" where
  "raw_ok env d =
     (case dict_get d ''raw'' of
        None \<Rightarrow> False
      | Some (PStr s) \<Rightarrow> if s = [] then True else \<not> isl (json_loads env s)
      | Some (PDict kvs) \<Rightarrow>
          if kvs = [] then True
          else (case json_dumps_default_str env (PDict kvs) of
                  Inl e \<Rightarrow> False
                | Inr s \<Rightarrow> \<not> isl (json_loads env s))
      | Some v \<Rightarrow> True)"

definition transformable :: "pyenv \<Rightarrow> pydict \<Rightarrow> bool" where
  "transformable env d = (list_all (array_ok d) array_fields \<and> raw_ok env d)"

text \<open>The pages that came back from \<^verbatim>\<open>fetchmany\<close>, in order, and the number of rows in
  them.\<close>

fun pages :: "event list \<Rightarrow> row list list" where
  "pages [] = []"
| "pages (Db_fetchmany n rows # es) = rows # pages es"
| "pages (e # es) = pages es"

definition rows_pulled :: "event list \<Rightarrow> nat" where
  "rows_pulled es = length (concat (pages es))"

text \<open>The number of page pulls issued when \<open>cap\<close> rows or more had already been pulled;
  \<open>got\<close> is the number of rows pulled before the first event.\<close>

fun pulls_after_cap :: "nat \<Rightarrow> nat \<Rightarrow> row list list \<Rightarrow> nat" where
  "pulls_after_cap cap got [] = 0"
| "pulls_after_cap cap got (p # ps) =
     (if cap \<le> got then 1 else 0) + pulls_after_cap cap (got + length p) ps"

text \<open>The calls of the store: payload and conflict key.\<close>

fun upserts :: "event list \<Rightarrow> (payload \<times> string) list" where
  "upserts [] = []"
| "upserts (Upsert t p c # es) = (p, c) # upserts es"
| "upserts (e # es) = upserts es"

fun payload_records :: "payload \<Rightarrow> pydict list" where
  "payload_records (Rows rs) = rs"
| "payload_records (Row r) = [r]"

text \<open>What the store answers when the records of a batch are written one by one,
  starting from the store \<open>s\<close>.\<close>

fun outcomes :: "'s upsert_execute \<Rightarrow> 's \<Rightarrow> pydict list \<Rightarrow> (pydict \<times> exn option) list" where
  "outcomes up s [] = []"
| "outcomes up s (r # rs) =
     (case up s ''places'' (Row r) ''id'' of (x, s') \<Rightarrow> (r, x) # outcomes up s' rs)"

fun failure_descriptions :: "pyenv \<Rightarrow> (pydict \<times> exn option) list \<Rightarrow> string list" where
  "failure_descriptions env [] = []"
| "failure_descriptions env ((r, None) # os) = failure_descriptions env os"
| "failure_descriptions env ((r, Some e) # os) =
     (''Insert error for '' @ py_str env (dict_get_default r ''id'' (PStr ''?'')) @
      '': '' @ exn_str e) # failure_descriptions env os"

definition successes :: "(pydict \<times> exn option) list \<Rightarrow> nat" where
  "successes os = length (filter (\<lambda>x. snd x = None) os)"

definition failures :: "(pydict \<times> exn option) list \<Rightarrow> nat" where
  "failures os = length (filter (\<lambda>x. snd x \<noteq> None) os)"

text \<open>A source that holds the rows \<open>rs\<close> and honours the \<^verbatim>\<open>LIMIT\<close> clause of a query.\<close>

definition honours_limit :: "'s world \<Rightarrow> string \<Rightarrow> int \<Rightarrow> bool" where
  "honours_limit w q n =
     (query_result w (q @ '' LIMIT '' @ str_int n) = take (nat n) (query_result w q))"

section \<open>Sample inputs\<close>

text \<open>
  A small environment: its JSON codec knows the empty object only, its formatting is
  that of Python on texts, \<^verbatim>\<open>None\<close> and integers, and its clock ticks once a second.
\<close>

definition sample_env :: pyenv where
  "sample_env =
     \<lparr>json_loads = (\<lambda>s. if s = ''{}'' then Inr (PDict [])
                        else Inl (Raised ''Expecting value: line 1 column 1 (char 0)'')),
      json_dumps_default_str = (\<lambda>v. Inr ''{}''),
      py_str = (\<lambda>v. case v of PStr s \<Rightarrow> s | PInt i \<Rightarrow> str_int i | _ \<Rightarrow> ''None''),
      utcnow_isoformat = (\<lambda>n. ''2025-12-01T09:30:0'' @ [digit n])\<rparr>"

text \<open>A row of the nineteen columns with the given \<^verbatim>\<open>id\<close> and \<^verbatim>\<open>websites\<close>.\<close>

definition sample_row :: "pyval \<Rightarrow> pyval \<Rightarrow> row" where
  "sample_row i ws =
     [i, PStr ''Blue Bottle'', PFloat 0x3FEE666666666666, PStr ''cafe'',
      PList [PStr ''coffee_shop'', PStr ''bakery''], PNone, PStr ''open'', ws, PNone,
      PList [], PNone, PStr ''1 Ferry Building'', PStr ''San Francisco'', PStr ''CA'',
      PStr ''94111'', PStr ''US'', PFloat 0xC05E997F62B6AE7D, PFloat 0x4042E5C91D14E3BD,
      PStr ''{}'']"

text \<open>A store that keeps the identifiers it has written and rejects a payload that holds
  a record without one, as a primary key does.\<close>

definition has_id :: "pydict \<Rightarrow> bool" where
  "has_id r = (dict_get_default r ''id'' PNone \<noteq> PNone)"

definition sample_upsert :: "pyval list upsert_execute" where
  "sample_upsert s t p c =
     (if list_all has_id (payload_records p)
      then (None, s @ map (\<lambda>r. dict_get_default r ''id'' PNone) (payload_records p))
      else (Some (Raised ''null value in column id violates not-null constraint''), s))"

definition sample_world :: "row list \<Rightarrow> int \<Rightarrow> pyval list world" where
  "sample_world rs n =
     \<lparr>SUPABASE_URL = Some ''https://example.supabase.co'',
      SUPABASE_SERVICE_KEY = Some ''service-key'',
      count_result = (\<lambda>q. int (length rs)),
      query_result = (\<lambda>q. if q = build_query None None None @ '' LIMIT '' @ str_int n
                            then take (nat n) rs else rs),
      upsert = sample_upsert,
      input_line = ''y''\<rparr>"

definition sample_args :: "int option \<Rightarrow> bool \<Rightarrow> args" where
  "sample_args n dry =
     \<lparr>limit = n, category = None, state = None, dry_run = dry, yes = False\<rparr>"

text \<open>The record \<^verbatim>\<open>transform_record\<close> makes of \<open>sample_row i PNone\<close> when the clock has been
  read \<open>tk\<close> times.\<close>

definition sample_record :: "pyval \<Rightarrow> nat \<Rightarrow> pydict" where
  "sample_record i tk =
     [(''id'', i), (''name'', PStr ''Blue Bottle''),
      (''confidence'', PFloat 0x3FEE666666666666), (''primary_category'', PStr ''cafe''),
      (''alternate_categories'', PList [PStr ''coffee_shop'', PStr ''bakery'']),
      (''brand'', PNone), (''operating_status'', PStr ''open''), (''websites'', PNone),
      (''socials'', PNone), (''phones'', PNone), (''emails'', PNone),
      (''street'', PStr ''1 Ferry Building''), (''city'', PStr ''San Francisco''),
      (''state'', PStr ''CA''), (''postcode'', PStr ''94111''), (''country'', PStr ''US''),
      (''lon'', PFloat 0xC05E997F62B6AE7D), (''lat'', PFloat 0x4042E5C91D14E3BD),
      (''raw'', PDict []), (''overture_version'', PStr ''2025-11-19.0''),
      (''overture_updated_at'', PStr (utcnow_isoformat sample_env tk)),
      (''updated_at'', PStr (utcnow_isoformat sample_env (tk + 1)))]"

text \<open>A page of four rows: the second has a null \<^verbatim>\<open>id\<close>, the third has no columns at all;
  and the batch that survives its transform.\<close>

definition sample_rows :: "row list" where
  "sample_rows =
     [sample_row (PStr ''08f2a5'') PNone, sample_row PNone PNone, [],
      sample_row (PStr ''08f2c7'') PNone]"

definition sample_batch :: "pydict list" where
  "sample_batch =
     [sample_record (PStr ''08f2a5'') 0, sample_record PNone 2,
      sample_record (PStr ''08f2c7'') 4]"

section \<open>Dictionaries and the steps of the transform\<close>

lemma map_of_dict_set: "map_of (dict_set k v d) = (map_of d)(k \<mapsto> v)"
  by (induction d) (auto simp: fun_eq_iff)

lemma dict_get_dict_set: "dict_get (dict_set k v d) k' = (if k' = k then Some v else dict_get d k')"
  by (simp add: dict_get_def map_of_dict_set)

lemma keys_dict_set:
  "map fst (dict_set k v d) = (if k \<in> set (map fst d) then map fst d else map fst d @ [k])"
  by (induction d) auto

lemma filter_dict_set_other:
  "\<not> P k \<Longrightarrow> filter (\<lambda>kv. P (fst kv)) (dict_set k v d) = filter (\<lambda>kv. P (fst kv)) d"
  by (induction d) auto

lemma handle_arrays_other:
  "handle_arrays fs d0 = Inr w \<Longrightarrow> k \<notin> set fs \<Longrightarrow> dict_get w k = dict_get d0 k"
proof (induction fs arbitrary: d0)
  case Nil
  then show ?case by simp
next
  case (Cons f fs)
  then show ?case
    by (auto simp: dict_get_dict_set split: sum.splits if_splits)
qed

lemma handle_arrays_field:
  "handle_arrays fs d0 = Inr w \<Longrightarrow> distinct fs \<Longrightarrow> f \<in> set fs \<Longrightarrow>
   \<exists>v. dict_get d0 f = Some v \<and>
     (if py_truthy v then \<exists>xs. py_list v = Inr xs \<and> dict_get w f = Some (PList xs)
      else dict_get w f = Some PNone)"
proof (induction fs arbitrary: d0)
  case Nil
  then show ?case by simp
next
  case (Cons g fs)
  show ?case
  proof (cases "f = g")
    case True
    from Cons.prems obtain v where v: "dict_get d0 g = Some v"
      by (auto simp: subscript_def split: option.splits sum.splits)
    show ?thesis
    proof (cases "py_truthy v")
      case t: True
      with Cons.prems v obtain xs where xs: "py_list v = Inr xs"
        and rest: "handle_arrays fs (dict_set g (PList xs) d0) = Inr w"
        by (auto simp: subscript_def split: sum.splits)
      from Cons.prems have "g \<notin> set fs" by simp
      from handle_arrays_other[OF rest this] have "dict_get w g = Some (PList xs)"
        by (simp add: dict_get_dict_set)
      with True v t xs show ?thesis by simp
    next
      case f: False
      with Cons.prems v have rest: "handle_arrays fs (dict_set g PNone d0) = Inr w"
        by (auto simp: subscript_def split: sum.splits)
      from Cons.prems have "g \<notin> set fs" by simp
      from handle_arrays_other[OF rest this] have "dict_get w g = Some PNone"
        by (simp add: dict_get_dict_set)
      with True v f show ?thesis by simp
    qed
  next
    case False
    with Cons.prems have fin: "f \<in> set fs" and d: "distinct fs" by auto
    from Cons.prems obtain v where v: "dict_get d0 g = Some v"
      by (auto simp: subscript_def split: option.splits sum.splits)
    from Cons.prems v obtain u where rest: "handle_arrays fs (dict_set g u d0) = Inr w"
      by (auto simp: subscript_def split: sum.splits if_splits)
    from Cons.IH[OF rest d fin] False show ?thesis
      by (simp add: dict_get_dict_set)
  qed
qed

lemma handle_json_other:
  "handle_json env d0 = Inr w \<Longrightarrow> k \<noteq> ''raw'' \<Longrightarrow> dict_get w k = dict_get d0 k"
  by (auto simp: handle_json_def dict_get_dict_set split: sum.splits if_splits pyval.splits)

lemma add_metadata_other:
  "k \<notin> set metadata_keys \<Longrightarrow> dict_get (add_metadata env tk d0) k = dict_get d0 k"
  by (simp add: add_metadata_def metadata_keys_def dict_get_dict_set)

lemma handle_arrays_succeeds:
  "list_all (array_ok d0) fs \<Longrightarrow> distinct fs \<Longrightarrow> \<exists>w. handle_arrays fs d0 = Inr w"
proof (induction fs arbitrary: d0)
  case Nil
  then show ?case by simp
next
  case (Cons f fs)
  from Cons.prems obtain v where v: "dict_get d0 f = Some v"
    and it: "py_truthy v \<Longrightarrow> \<not> isl (py_list v)"
    by (auto simp: array_ok_def split: option.splits if_splits)
  have keep: "list_all (array_ok (dict_set f u d0)) fs" for u
    using Cons.prems by (auto simp: list_all_iff array_ok_def dict_get_dict_set)
  from Cons.prems have d: "distinct fs" by simp
  show ?case
  proof (cases "py_truthy v")
    case True
    with it obtain xs where "py_list v = Inr xs" by (cases "py_list v") auto
    with True v Cons.IH[OF keep d, of "PList xs"] show ?thesis
      by (simp add: subscript_def)
  next
    case False
    with v Cons.IH[OF keep d, of PNone] show ?thesis
      by (simp add: subscript_def)
  qed
qed

lemma handle_json_succeeds:
  "raw_ok env d0 \<Longrightarrow> \<exists>w. handle_json env d0 = Inr w"
  by (auto simp: raw_ok_def handle_json_def subscript_def
      split: option.splits pyval.splits sum.splits if_splits)

lemma raw_ok_handle_arrays:
  "handle_arrays fs d0 = Inr w \<Longrightarrow> ''raw'' \<notin> set fs \<Longrightarrow> raw_ok env w = raw_ok env d0"
  by (simp add: raw_ok_def handle_arrays_other)

lemma distinct_array_fields: "distinct array_fields"
  by (simp add: array_fields_def)

lemma raw_not_array: "''raw'' \<notin> set array_fields"
  by (simp add: array_fields_def)

lemma id_not_array: "''id'' \<notin> set array_fields"
  by (simp add: array_fields_def)

lemma transform_record_succeeds:
  assumes "transformable env (dict_zip cols r)"
  shows "\<exists>w. transform_record env tk r cols = Inr w"
proof -
  from assms obtain w1 where w1: "handle_arrays array_fields (dict_zip cols r) = Inr w1"
    using handle_arrays_succeeds[OF _ distinct_array_fields] by (auto simp: transformable_def)
  from assms have "raw_ok env w1"
    by (simp add: raw_ok_handle_arrays[OF w1 raw_not_array] transformable_def)
  then obtain w2 where "handle_json env w1 = Inr w2"
    using handle_json_succeeds by blast
  with w1 show ?thesis by (simp add: transform_record_def)
qed

lemma transform_record_other:
  assumes "transform_record env tk r cols = Inr w"
    and "k \<notin> set array_fields" "k \<noteq> ''raw''" "k \<notin> set metadata_keys"
  shows "dict_get w k = dict_get (dict_zip cols r) k"
proof -
  from assms(1) obtain w1 w2 where w1: "handle_arrays array_fields (dict_zip cols r) = Inr w1"
    and w2: "handle_json env w1 = Inr w2" and w: "w = add_metadata env tk w2"
    by (auto simp: transform_record_def split: sum.splits)
  show ?thesis
    using handle_arrays_other[OF w1 assms(2)] handle_json_other[OF w2 assms(3)]
      add_metadata_other[OF assms(4)] w by simp
qed

lemma transform_record_array:
  assumes "transform_record env tk r cols = Inr w" and "f \<in> set array_fields"
  shows "\<exists>v. dict_get (dict_zip cols r) f = Some v \<and>
     (if py_truthy v then \<exists>xs. py_list v = Inr xs \<and> dict_get w f = Some (PList xs)
      else dict_get w f = Some PNone)"
proof -
  from assms(1) obtain w1 w2 where w1: "handle_arrays array_fields (dict_zip cols r) = Inr w1"
    and w2: "handle_json env w1 = Inr w2" and w: "w = add_metadata env tk w2"
    by (auto simp: transform_record_def split: sum.splits)
  from assms(2) have ne: "f \<noteq> ''raw''" and nm: "f \<notin> set metadata_keys"
    by (auto simp: array_fields_def metadata_keys_def)
  have eq: "dict_get w f = dict_get w1 f"
    using handle_json_other[OF w2 ne] add_metadata_other[OF nm] w by simp
  show ?thesis
    using handle_arrays_field[OF w1 distinct_array_fields assms(2)] unfolding eq .
qed

lemma transform_record_raw_null:
  assumes "transform_record env tk r cols = Inr w"
    and "dict_get (dict_zip cols r) ''raw'' = Some PNone"
  shows "dict_get w ''raw'' = Some PNone"
proof -
  from assms(1) obtain w1 w2 where w1: "handle_arrays array_fields (dict_zip cols r) = Inr w1"
    and w2: "handle_json env w1 = Inr w2" and w: "w = add_metadata env tk w2"
    by (auto simp: transform_record_def split: sum.splits)
  have "dict_get w1 ''raw'' = Some PNone"
    using handle_arrays_other[OF w1 raw_not_array] assms(2) by simp
  with w2 have "w2 = w1" by (simp add: handle_json_def subscript_def)
  with \<open>dict_get w1 ''raw'' = Some PNone\<close> w show ?thesis
    by (simp add: add_metadata_other metadata_keys_def)
qed

lemmas transform_defs =
  transform_record_def dict_zip_def columns_def sample_row_def array_fields_def
  subscript_def dict_get_def handle_json_def add_metadata_def sample_env_def
  OVERTURE_VERSION_def digit_def

lemma sample_row_transformable:
  "transformable sample_env (dict_zip columns (sample_row i ws)) =
     (if py_truthy ws then \<not> isl (py_list ws) else True)"
  by (simp add: transformable_def array_ok_def raw_ok_def transform_defs)

section \<open>The record transformer: required and optional fields\<close>

text \<open>
  Claim C1, as the specification has it: a row whose \<^verbatim>\<open>id\<close> is missing fails with a
  \<^verbatim>\<open>TransformError\<close> naming the field. The code has no such check. The sample row
  below has a null \<^verbatim>\<open>id\<close>, and \<^verbatim>\<open>transform_record\<close> returns a record for it, with
  the null \<^verbatim>\<open>id\<close> in it.
\<close>

theorem transform_record_null_id_counterexample:
  "dict_get (dict_zip columns (sample_row PNone PNone)) ''id'' = Some PNone \<and>
   transform_record sample_env 0 (sample_row PNone PNone) columns =
     Inr [(''id'', PNone), (''name'', PStr ''Blue Bottle''),
          (''confidence'', PFloat 0x3FEE666666666666), (''primary_category'', PStr ''cafe''),
          (''alternate_categories'', PList [PStr ''coffee_shop'', PStr ''bakery'']),
          (''brand'', PNone), (''operating_status'', PStr ''open''), (''websites'', PNone),
          (''socials'', PNone), (''phones'', PNone), (''emails'', PNone),
          (''street'', PStr ''1 Ferry Building''), (''city'', PStr ''San Francisco''),
          (''state'', PStr ''CA''), (''postcode'', PStr ''94111''), (''country'', PStr ''US''),
          (''lon'', PFloat 0xC05E997F62B6AE7D), (''lat'', PFloat 0x4042E5C91D14E3BD),
          (''raw'', PDict []), (''overture_version'', PStr ''2025-11-19.0''),
          (''overture_updated_at'', PStr ''2025-12-01T09:30:00''),
          (''updated_at'', PStr ''2025-12-01T09:30:01'')]"
  by (simp add: transform_defs)

text \<open>
  Claim C1, amended: \<^verbatim>\<open>transform_record\<close> has no required field. On every row that
  holds the five array fields and \<^verbatim>\<open>raw\<close> with values the transform can read
  (\<open>transformable\<close>), it returns a record, whatever the \<^verbatim>\<open>id\<close> is and also when it is
  null or absent; the record carries the \<^verbatim>\<open>id\<close> of the row as it is, and every field
  that is null in the row is null in the record.
\<close>

theorem transform_record_no_required_field:
  assumes "transformable env (dict_zip cols r)"
  shows "\<exists>w. transform_record env tk r cols = Inr w \<and>
           dict_get w ''id'' = dict_get (dict_zip cols r) ''id'' \<and>
           (\<forall>k. dict_get (dict_zip cols r) k = Some PNone \<longrightarrow> k \<notin> set metadata_keys \<longrightarrow>
                dict_get w k = Some PNone)"
proof -
  from transform_record_succeeds[OF assms] obtain w
    where w: "transform_record env tk r cols = Inr w" by blast
  have idk: "dict_get w ''id'' = dict_get (dict_zip cols r) ''id''"
    by (rule transform_record_other[OF w id_not_array]) (simp_all add: metadata_keys_def)
  have nulls: "dict_get w k = Some PNone"
    if n: "dict_get (dict_zip cols r) k = Some PNone" and m: "k \<notin> set metadata_keys" for k
  proof (cases "k \<in> set array_fields")
    case True
    from transform_record_array[OF w True] n show ?thesis by auto
  next
    case False
    show ?thesis
    proof (cases "k = ''raw''")
      case True
      with transform_record_raw_null[OF w] n show ?thesis by simp
    next
      case nr: False
      from transform_record_other[OF w False nr m] n show ?thesis by simp
    qed
  qed
  from w idk nulls show ?thesis by blast
qed

theorem transform_record_no_required_field_witness:
  "transformable sample_env (dict_zip columns (sample_row PNone PNone)) \<and>
   (\<exists>w. transform_record sample_env 0 (sample_row PNone PNone) columns = Inr w \<and>
        dict_get w ''id'' = dict_get (dict_zip columns (sample_row PNone PNone)) ''id'' \<and>
        (\<forall>k. dict_get (dict_zip columns (sample_row PNone PNone)) k = Some PNone \<longrightarrow>
             k \<notin> set metadata_keys \<longrightarrow> dict_get w k = Some PNone))"
proof -
  have h: "transformable sample_env (dict_zip columns (sample_row PNone PNone))"
    by (simp add: sample_row_transformable)
  show ?thesis
    using h transform_record_no_required_field [OF h, of 0] by simp
qed

section \<open>The record transformer: array fields\<close>

text \<open>
  Claim C2, as the specification has it: for an array field, a row where the field is
  null and a row where it is an empty sequence give records that can be told apart. They
  cannot: \<^verbatim>\<open>if record[arr_field]\<close> is false for both, and both get \<^verbatim>\<open>None\<close>. The two
  sample rows below differ in \<^verbatim>\<open>websites\<close> only, null in one and \<^verbatim>\<open>[]\<close> in the other,
  and the transform returns the same record for both.
\<close>

theorem null_and_empty_array_counterexample:
  "dict_get (dict_zip columns (sample_row (PStr ''08f2a5'') PNone)) ''websites'' = Some PNone \<and>
   dict_get (dict_zip columns (sample_row (PStr ''08f2a5'') (PList []))) ''websites'' = Some (PList []) \<and>
   transform_record sample_env 0 (sample_row (PStr ''08f2a5'') PNone) columns =
     transform_record sample_env 0 (sample_row (PStr ''08f2a5'') (PList [])) columns \<and>
   (case transform_record sample_env 0 (sample_row (PStr ''08f2a5'') (PList [])) columns of
      Inl e \<Rightarrow> False
    | Inr w \<Rightarrow> dict_get w ''websites'' = Some PNone)"
  by (simp add: transform_defs)

text \<open>
  Claim C2, amended: for every array field, a null value and an empty sequence both
  become \<^verbatim>\<open>None\<close>, the one marker for no value, so the record does not tell them
  apart; a sequence that is not empty is copied as it is, in the order of the source.
\<close>

theorem array_field_normalized:
  assumes "transform_record env tk r cols = Inr w" and "f \<in> set array_fields"
  shows "(dict_get (dict_zip cols r) f = Some PNone \<longrightarrow> dict_get w f = Some PNone) \<and>
         (dict_get (dict_zip cols r) f = Some (PList []) \<longrightarrow> dict_get w f = Some PNone) \<and>
         (\<forall>xs. xs \<noteq> [] \<longrightarrow> dict_get (dict_zip cols r) f = Some (PList xs) \<longrightarrow>
               dict_get w f = Some (PList xs))"
  using transform_record_array [OF assms] by auto

theorem array_field_normalized_witness:
  "\<exists>w. transform_record sample_env 0
          (sample_row (PStr ''08f2a5'') (PList [PStr ''https://b.example'', PStr ''https://a.example'']))
          columns = Inr w \<and>
       ''websites'' \<in> set array_fields \<and>
       dict_get (dict_zip columns
           (sample_row (PStr ''08f2a5'') (PList [PStr ''https://b.example'', PStr ''https://a.example''])))
         ''websites'' = Some (PList [PStr ''https://b.example'', PStr ''https://a.example'']) \<and>
       dict_get w ''websites'' = Some (PList [PStr ''https://b.example'', PStr ''https://a.example''])"
proof -
  let ?r = "sample_row (PStr ''08f2a5'') (PList [PStr ''https://b.example'', PStr ''https://a.example''])"
  have "transformable sample_env (dict_zip columns ?r)"
    by (simp add: sample_row_transformable)
  then obtain w where w: "transform_record sample_env 0 ?r columns = Inr w"
    using transform_record_succeeds by blast
  have m: "''websites'' \<in> set array_fields"
    by (simp add: array_fields_def)
  have g: "dict_get (dict_zip columns ?r) ''websites'' =
      Some (PList [PStr ''https://b.example'', PStr ''https://a.example''])"
    by (simp add: dict_zip_def columns_def sample_row_def dict_get_def)
  show ?thesis
    using w m g array_field_normalized [OF w m] by simp
qed

section \<open>The record transformer: determinism\<close>

lemma strip_stamps_dict_set:
  "k = ''overture_updated_at'' \<or> k = ''updated_at'' \<Longrightarrow>
   strip_stamps (dict_set k v d) = strip_stamps d"
  unfolding strip_stamps_def
  by (rule filter_dict_set_other [where P = "\<lambda>k. k \<noteq> ''overture_updated_at'' \<and> k \<noteq> ''updated_at''"]) simp

lemma strip_stamps_add_metadata:
  "strip_stamps (add_metadata env tk d) =
   strip_stamps (dict_set ''overture_version'' (PStr OVERTURE_VERSION) d)"
  by (simp add: add_metadata_def strip_stamps_dict_set)

lemma handle_json_clock:
  "handle_json (env\<lparr>utcnow_isoformat := clock\<rparr>) d = handle_json env d"
  by (simp add: handle_json_def cong: sum.case_cong pyval.case_cong if_cong)

text \<open>
  Claim C8: two calls of \<^verbatim>\<open>transform_record\<close> on the same row, at any two moments and
  with any two clocks, give the same result once the two time stamps
  \<^verbatim>\<open>overture_updated_at\<close> and \<^verbatim>\<open>updated_at\<close> are taken out: the same exception, or
  records equal on every other field, in the same order.
\<close>

theorem transform_record_deterministic:
  "map_sum id strip_stamps (transform_record env t1 r cols) =
   map_sum id strip_stamps (transform_record (env\<lparr>utcnow_isoformat := clock\<rparr>) t2 r cols)"
  by (simp add: transform_record_def handle_json_clock strip_stamps_add_metadata
      split: sum.splits)

theorem transform_record_deterministic_witness:
  "transform_record sample_env 0 (sample_row (PStr ''08f2a5'') PNone) columns \<noteq>
   transform_record (sample_env\<lparr>utcnow_isoformat := (\<lambda>n. ''2026-01-15T18:00:00'')\<rparr>) 4
     (sample_row (PStr ''08f2a5'') PNone) columns \<and>
   map_sum id strip_stamps
     (transform_record sample_env 0 (sample_row (PStr ''08f2a5'') PNone) columns) =
   map_sum id strip_stamps
     (transform_record (sample_env\<lparr>utcnow_isoformat := (\<lambda>n. ''2026-01-15T18:00:00'')\<rparr>) 4
        (sample_row (PStr ''08f2a5'') PNone) columns)"
  using transform_record_deterministic
    [of sample_env 0 "sample_row (PStr ''08f2a5'') PNone" columns "\<lambda>n. ''2026-01-15T18:00:00''" 4]
  by (simp add: transform_defs)

section \<open>The bulk load pipeline: pages, batches and the loop\<close>

lemma pages_append: "pages (xs @ ys) = pages xs @ pages ys"
  by (induction xs rule: pages.induct) auto

lemma upserts_append: "upserts (xs @ ys) = upserts xs @ upserts ys"
  by (induction xs rule: upserts.induct) auto

lemma rows_pulled_append: "rows_pulled (xs @ ys) = rows_pulled xs + rows_pulled ys"
  by (simp add: rows_pulled_def pages_append)

lemma pages_row_upserts: "pages (map (\<lambda>r. Upsert t (Row r) c) rs) = []"
  by (induction rs) auto

lemma upserts_row_upserts:
  "upserts (map (\<lambda>r. Upsert t (Row r) c) rs) = map (\<lambda>r. (Row r, c)) rs"
  by (induction rs) auto

subsection \<open>The rows of a page\<close>

lemma transform_rows_frame:
  "transform_rows env cols rows batch st = (b, st') \<Longrightarrow>
   imported st' = imported st \<and> trace st' = trace st \<and> store st' = store st"
proof (induction rows arbitrary: batch st)
  case Nil
  then show ?case by simp
next
  case (Cons r rows)
  then show ?case
    by (cases "transform_record env (tick st) r cols") auto
qed

lemma transform_rows_count:
  "transform_rows env cols rows batch st = (b, st') \<Longrightarrow>
   length b + errors st' = length batch + errors st + length rows"
proof (induction rows arbitrary: batch st)
  case Nil
  then show ?case by simp
next
  case (Cons r rows)
  show ?case
  proof (cases "transform_record env (tick st) r cols")
    case (Inl e)
    with Cons.prems Cons.IH [of batch _] show ?thesis by fastforce
  next
    case (Inr w)
    with Cons.prems Cons.IH [of "batch @ [w]" _] show ?thesis by fastforce
  qed
qed

lemma transform_rows_samples:
  "transform_rows env cols rows batch st = (b, st') \<Longrightarrow>
   length (error_samples st) \<le> 5 \<Longrightarrow> length (error_samples st') \<le> 5"
proof (induction rows arbitrary: batch st)
  case Nil
  then show ?case by simp
next
  case (Cons r rows)
  show ?case
  proof (cases "transform_record env (tick st) r cols")
    case (Inl e)
    with Cons.prems Cons.IH [of batch _] show ?thesis by (auto split: if_splits)
  next
    case (Inr w)
    with Cons.prems Cons.IH [of "batch @ [w]" _] show ?thesis by auto
  qed
qed

lemma transform_rows_batch:
  "transform_rows env cols rows batch st = (b, st') \<Longrightarrow>
   \<exists>new. b = batch @ new \<and>
     (\<forall>w\<in>set new. \<exists>r\<in>set rows. \<exists>tk. transform_record env tk r cols = Inr w)"
proof (induction rows arbitrary: batch st)
  case Nil
  then show ?case by simp
next
  case (Cons r rows)
  show ?case
  proof (cases "transform_record env (tick st) r cols")
    case (Inl e)
    with Cons.prems Cons.IH [of batch _] show ?thesis by fastforce
  next
    case (Inr w)
    with Cons.prems have "transform_rows env cols rows (batch @ [w]) (st\<lparr>tick := tick st + 2\<rparr>) = (b, st')"
      by simp
    from Cons.IH [OF this] obtain new where n: "b = (batch @ [w]) @ new"
      and a: "\<forall>v\<in>set new. \<exists>r\<in>set rows. \<exists>tk. transform_record env tk r cols = Inr v"
      by blast
    have "b = batch @ (w # new)" using n by simp
    moreover have "\<forall>v\<in>set (w # new). \<exists>r'\<in>set (r # rows). \<exists>tk. transform_record env tk r' cols = Inr v"
      using a Inr by auto
    ultimately show ?thesis by blast
  qed
qed

text \<open>Whether a row fails does not depend on the clock.\<close>

lemma transform_record_isl_tick:
  "isl (transform_record env t1 r cols) = isl (transform_record env t2 r cols)"
  by (simp add: transform_record_def split: sum.splits)

lemma transform_rows_all_fail:
  "\<forall>r\<in>set rows. isl (transform_record env 0 r cols) \<Longrightarrow>
   fst (transform_rows env cols rows batch st) = batch"
proof (induction rows arbitrary: st)
  case Nil
  then show ?case by simp
next
  case (Cons r rows)
  from Cons.prems have "isl (transform_record env (tick st) r cols)"
    using transform_record_isl_tick [of env "tick st" r cols 0] by simp
  then obtain e where "transform_record env (tick st) r cols = Inl e"
    by (cases "transform_record env (tick st) r cols") auto
  with Cons show ?case by simp
qed

lemma transform_rows_some_ok:
  "\<exists>r\<in>set rows. \<not> isl (transform_record env 0 r cols) \<Longrightarrow>
   length batch < length (fst (transform_rows env cols rows batch st))"
proof (induction rows arbitrary: batch st)
  case Nil
  then show ?case by simp
next
  case (Cons r rows)
  show ?case
  proof (cases "transform_record env (tick st) r cols")
    case (Inl e)
    then have "isl (transform_record env 0 r cols)"
      using transform_record_isl_tick [of env "tick st" r cols 0] by simp
    with Cons.prems have ex: "\<exists>r\<in>set rows. \<not> isl (transform_record env 0 r cols)" by auto
    from Inl Cons.IH [OF ex] show ?thesis by simp
  next
    case (Inr w)
    obtain b st' where
      q: "transform_rows env cols rows (batch @ [w]) (st\<lparr>tick := tick st + 2\<rparr>) = (b, st')"
      by (cases "transform_rows env cols rows (batch @ [w]) (st\<lparr>tick := tick st + 2\<rparr>)")
    from transform_rows_batch [OF q] obtain new where "b = (batch @ [w]) @ new" by blast
    with Inr q show ?thesis by simp
  qed
qed

subsection \<open>The records of a failed batch\<close>

lemma successes_failures: "successes os + failures os = length os"
  unfolding successes_def failures_def
  by (induction os) auto

lemma length_outcomes: "length (outcomes up s rs) = length rs"
  by (induction rs arbitrary: s) (auto split: prod.splits)

lemma upsert_each_trace:
  "trace (upsert_each env up rs st) =
   trace st @ map (\<lambda>r. Upsert ''places'' (Row r) ''id'') rs"
proof (induction rs arbitrary: st)
  case Nil
  then show ?case by simp
next
  case (Cons r rs)
  then show ?case
    by (cases "up (store st) ''places'' (Row r) ''id''") (auto split: option.splits)
qed

lemma upsert_each_imported:
  "imported (upsert_each env up rs st) = imported st + successes (outcomes up (store st) rs)"
proof (induction rs arbitrary: st)
  case Nil
  then show ?case by (simp add: successes_def)
next
  case (Cons r rs)
  then show ?case
    by (cases "up (store st) ''places'' (Row r) ''id''")
       (auto simp: successes_def split: option.splits)
qed

lemma upsert_each_errors:
  "errors (upsert_each env up rs st) = errors st + failures (outcomes up (store st) rs)"
proof (induction rs arbitrary: st)
  case Nil
  then show ?case by (simp add: failures_def)
next
  case (Cons r rs)
  then show ?case
    by (cases "up (store st) ''places'' (Row r) ''id''")
       (auto simp: failures_def split: option.splits)
qed

lemma upsert_each_samples:
  "error_samples (upsert_each env up rs st) =
   error_samples st @
     take (5 - length (error_samples st)) (failure_descriptions env (outcomes up (store st) rs))"
proof (induction rs arbitrary: st)
  case Nil
  then show ?case by simp
next
  case (Cons r rs)
  obtain x s' where u: "up (store st) ''places'' (Row r) ''id'' = (x, s')"
    by (cases "up (store st) ''places'' (Row r) ''id''")
  show ?case
  proof (cases x)
    case None
    with u Cons.IH show ?thesis by simp
  next
    case (Some e2)
    show ?thesis
    proof (cases "length (error_samples st) < 5")
      case True
      then obtain k where k: "5 - length (error_samples st) = Suc k"
        by (cases "5 - length (error_samples st)") auto
      then have "5 - Suc (length (error_samples st)) = k" by simp
      with u Some True k Cons.IH show ?thesis by simp
    next
      case False
      with u Some Cons.IH show ?thesis by simp
    qed
  qed
qed

subsection \<open>The write of one page\<close>

lemma write_batch_empty: "write_batch env up [] st = st"
  by (simp add: write_batch_def)

lemma write_batch_ok:
  "batch \<noteq> [] \<Longrightarrow> up (store st) ''places'' (Rows batch) ''id'' = (None, s') \<Longrightarrow>
   write_batch env up batch st =
     st\<lparr>store := s', trace := trace st @ [Upsert ''places'' (Rows batch) ''id''],
        imported := imported st + length batch\<rparr>"
  by (simp add: write_batch_def)

lemma write_batch_failed:
  "batch \<noteq> [] \<Longrightarrow> up (store st) ''places'' (Rows batch) ''id'' = (Some e, s') \<Longrightarrow>
   write_batch env up batch st =
     upsert_each env up batch
       (st\<lparr>store := s', trace := trace st @ [Upsert ''places'' (Rows batch) ''id'']\<rparr>)"
  by (simp add: write_batch_def)

lemma write_batch_count:
  "imported (write_batch env up batch st) + errors (write_batch env up batch st) =
   imported st + errors st + length batch"
proof (cases "batch = []")
  case True
  then show ?thesis by (simp add: write_batch_empty)
next
  case False
  obtain x s' where u: "up (store st) ''places'' (Rows batch) ''id'' = (x, s')"
    by (cases "up (store st) ''places'' (Rows batch) ''id''")
  show ?thesis
  proof (cases x)
    case None
    with False u show ?thesis by (simp add: write_batch_ok)
  next
    case (Some e)
    have "successes (outcomes up s' batch) + failures (outcomes up s' batch) = length batch"
      by (simp add: successes_failures length_outcomes)
    with False u Some show ?thesis
      by (simp add: write_batch_failed upsert_each_imported upsert_each_errors)
  qed
qed

lemma write_batch_trace:
  "\<exists>es. trace (write_batch env up batch st) = trace st @ es \<and> pages es = [] \<and>
     (batch = [] \<longrightarrow> es = []) \<and>
     (batch \<noteq> [] \<longrightarrow> (\<exists>rest. es = Upsert ''places'' (Rows batch) ''id'' # rest)) \<and>
     (\<forall>pc\<in>set (upserts es). snd pc = ''id'' \<and> set (payload_records (fst pc)) \<subseteq> set batch)"
proof (cases "batch = []")
  case True
  then show ?thesis by (simp add: write_batch_empty)
next
  case False
  obtain x s' where u: "up (store st) ''places'' (Rows batch) ''id'' = (x, s')"
    by (cases "up (store st) ''places'' (Rows batch) ''id''")
  show ?thesis
  proof (cases x)
    case None
    with False u show ?thesis by (simp add: write_batch_ok)
  next
    case (Some e)
    let ?es = "Upsert ''places'' (Rows batch) ''id'' #
               map (\<lambda>r. Upsert ''places'' (Row r) ''id'') batch"
    have "trace (write_batch env up batch st) = trace st @ ?es"
      using False u Some by (simp add: write_batch_failed upsert_each_trace)
    moreover have "pages ?es = []"
      by (simp add: pages_row_upserts)
    moreover have "\<forall>pc\<in>set (upserts ?es). snd pc = ''id'' \<and>
        set (payload_records (fst pc)) \<subseteq> set batch"
      by (auto simp: upserts_row_upserts)
    ultimately show ?thesis using False by blast
  qed
qed

lemma write_batch_samples:
  "length (error_samples st) \<le> 5 \<Longrightarrow> length (error_samples (write_batch env up batch st)) \<le> 5"
proof (cases "batch = []")
  case True
  assume "length (error_samples st) \<le> 5"
  with True show ?thesis by (simp add: write_batch_empty)
next
  case False
  assume l: "length (error_samples st) \<le> 5"
  obtain x s' where u: "up (store st) ''places'' (Rows batch) ''id'' = (x, s')"
    by (cases "up (store st) ''places'' (Rows batch) ''id''")
  show ?thesis
  proof (cases x)
    case None
    with False u l show ?thesis by (simp add: write_batch_ok)
  next
    case (Some e)
    with False u l show ?thesis
      by (simp add: write_batch_failed upsert_each_samples)
  qed
qed

subsection \<open>One page\<close>

lemma process_page_count:
  "imported (process_page env up cols rows st) + errors (process_page env up cols rows st) =
   imported st + errors st + length rows"
proof -
  obtain b st' where p: "transform_rows env cols rows [] st = (b, st')"
    by (cases "transform_rows env cols rows [] st")
  from transform_rows_count [OF p] transform_rows_frame [OF p]
    write_batch_count [of env up b st'] p
  show ?thesis by (simp add: process_page_def)
qed

lemma process_page_samples:
  "length (error_samples st) \<le> 5 \<Longrightarrow>
   length (error_samples (process_page env up cols rows st)) \<le> 5"
proof -
  assume l: "length (error_samples st) \<le> 5"
  obtain b st' where p: "transform_rows env cols rows [] st = (b, st')"
    by (cases "transform_rows env cols rows [] st")
  from write_batch_samples [OF transform_rows_samples [OF p l]] p
  show ?thesis by (simp add: process_page_def)
qed

lemma process_page_trace:
  "\<exists>es. trace (process_page env up cols rows st) = trace st @ es \<and> pages es = [] \<and>
     (\<forall>pc\<in>set (upserts es). snd pc = ''id'' \<and>
        (\<forall>w\<in>set (payload_records (fst pc)).
           \<exists>r\<in>set rows. \<exists>tk. transform_record env tk r cols = Inr w))"
proof -
  obtain b st' where p: "transform_rows env cols rows [] st = (b, st')"
    by (cases "transform_rows env cols rows [] st")
  from transform_rows_batch [OF p]
  have b: "\<forall>w\<in>set b. \<exists>r\<in>set rows. \<exists>tk. transform_record env tk r cols = Inr w" by simp
  from write_batch_trace [of env up b st'] obtain es where
    t: "trace (write_batch env up b st') = trace st' @ es" and pg: "pages es = []" and
    u: "\<forall>pc\<in>set (upserts es). snd pc = ''id'' \<and> set (payload_records (fst pc)) \<subseteq> set b"
    by blast
  have "trace (process_page env up cols rows st) = trace st @ es"
    using t p transform_rows_frame [OF p] by (simp add: process_page_def)
  moreover have "\<forall>pc\<in>set (upserts es). snd pc = ''id'' \<and>
        (\<forall>w\<in>set (payload_records (fst pc)).
           \<exists>r\<in>set rows. \<exists>tk. transform_record env tk r cols = Inr w)"
    using u b by blast
  ultimately show ?thesis using pg by blast
qed

subsection \<open>The loop\<close>

lemma import_loop_stop:
  "cursor = [] \<Longrightarrow>
   import_loop env up cols cursor st = st\<lparr>trace := trace st @ [Db_fetchmany BATCH_SIZE []]\<rparr>"
  by (subst import_loop.simps) simp

lemma import_loop_step:
  "cursor \<noteq> [] \<Longrightarrow>
   import_loop env up cols cursor st =
     import_loop env up cols (drop BATCH_SIZE cursor)
       (process_page env up cols (take BATCH_SIZE cursor)
          (st\<lparr>trace := trace st @ [Db_fetchmany BATCH_SIZE (take BATCH_SIZE cursor)]\<rparr>))"
  by (subst import_loop.simps) (simp add: Let_def BATCH_SIZE_def)

lemma import_loop_induct [consumes 0, case_names stop step]:
  assumes "\<And>st. P [] st"
    and "\<And>cursor st. cursor \<noteq> [] \<Longrightarrow>
           (\<And>st'. P (drop BATCH_SIZE cursor) st') \<Longrightarrow> P cursor st"
  shows "P cursor st"
proof (induction cursor arbitrary: st rule: length_induct)
  case (1 cursor)
  show ?case
  proof (cases "cursor = []")
    case True
    with assms(1) show ?thesis by simp
  next
    case False
    then have "length (drop BATCH_SIZE cursor) < length cursor"
      by (simp add: BATCH_SIZE_def)
    with 1 have "\<And>st'. P (drop BATCH_SIZE cursor) st'" by blast
    with assms(2) False show ?thesis by blast
  qed
qed

lemma import_loop_count:
  "imported (import_loop env up cols cursor st) + errors (import_loop env up cols cursor st) =
   imported st + errors st + length cursor"
proof (induction cursor st rule: import_loop_induct)
  case (stop st)
  then show ?case by (simp add: import_loop_stop)
next
  case (step cursor st)
  have "length (take BATCH_SIZE cursor) + length (drop BATCH_SIZE cursor) = length cursor"
    by (simp add: min_def)
  with step show ?case
    by (simp add: import_loop_step process_page_count del: length_take length_drop)
qed

lemma import_loop_samples:
  "length (error_samples st) \<le> 5 \<Longrightarrow>
   length (error_samples (import_loop env up cols cursor st)) \<le> 5"
proof (induction cursor st rule: import_loop_induct)
  case (stop st)
  then show ?case by (simp add: import_loop_stop)
next
  case (step cursor st)
  then show ?case
    by (simp add: import_loop_step process_page_samples)
qed

lemma import_loop_trace:
  "\<exists>es ps. trace (import_loop env up cols cursor st) = trace st @ es \<and>
     pages es = ps @ [[]] \<and> concat ps = cursor \<and>
     (\<forall>p\<in>set ps. p \<noteq> [] \<and> length p \<le> BATCH_SIZE) \<and>
     (\<forall>pc\<in>set (upserts es). snd pc = ''id'' \<and>
        (\<forall>w\<in>set (payload_records (fst pc)).
           \<exists>r\<in>set cursor. \<exists>tk. transform_record env tk r cols = Inr w))"
proof (induction cursor st rule: import_loop_induct)
  case (stop st)
  have "trace (import_loop env up cols [] st) = trace st @ [Db_fetchmany BATCH_SIZE []]"
    by (simp add: import_loop_stop)
  moreover have "pages [Db_fetchmany BATCH_SIZE []] = [] @ [[]]" by simp
  ultimately show ?case by fastforce
next
  case (step cursor st)
  let ?rows = "take BATCH_SIZE cursor"
  let ?st1 = "st\<lparr>trace := trace st @ [Db_fetchmany BATCH_SIZE ?rows]\<rparr>"
  let ?st2 = "process_page env up cols ?rows ?st1"
  from process_page_trace [of env up cols ?rows ?st1] obtain es1 where
    t1: "trace ?st2 = trace ?st1 @ es1" and p1: "pages es1 = []" and
    u1: "\<forall>pc\<in>set (upserts es1). snd pc = ''id'' \<and>
        (\<forall>w\<in>set (payload_records (fst pc)).
           \<exists>r\<in>set ?rows. \<exists>tk. transform_record env tk r cols = Inr w)"
    by blast
  from step.IH [of ?st2] obtain es2 ps2 where
    t2: "trace (import_loop env up cols (drop BATCH_SIZE cursor) ?st2) = trace ?st2 @ es2" and
    p2: "pages es2 = ps2 @ [[]]" and c2: "concat ps2 = drop BATCH_SIZE cursor" and
    a2: "\<forall>p\<in>set ps2. p \<noteq> [] \<and> length p \<le> BATCH_SIZE" and
    u2: "\<forall>pc\<in>set (upserts es2). snd pc = ''id'' \<and>
        (\<forall>w\<in>set (payload_records (fst pc)).
           \<exists>r\<in>set (drop BATCH_SIZE cursor). \<exists>tk. transform_record env tk r cols = Inr w)"
    by blast
  let ?es = "Db_fetchmany BATCH_SIZE ?rows # es1 @ es2"
  have tr: "trace (import_loop env up cols cursor st) = trace st @ ?es"
    using step.hyps t1 t2 by (simp add: import_loop_step)
  have pg: "pages ?es = (?rows # ps2) @ [[]]"
    using p1 p2 by (simp add: pages_append)
  have cc: "concat (?rows # ps2) = cursor"
    using c2 by simp
  have al: "\<forall>p\<in>set (?rows # ps2). p \<noteq> [] \<and> length p \<le> BATCH_SIZE"
    using a2 step.hyps by (auto simp: BATCH_SIZE_def)
  have up: "\<forall>pc\<in>set (upserts ?es). snd pc = ''id'' \<and>
        (\<forall>w\<in>set (payload_records (fst pc)).
           \<exists>r\<in>set cursor. \<exists>tk. transform_record env tk r cols = Inr w)"
  proof
    fix pc assume "pc \<in> set (upserts ?es)"
    then have "pc \<in> set (upserts es1) \<or> pc \<in> set (upserts es2)"
      by (auto simp: upserts_append)
    then show "snd pc = ''id'' \<and>
        (\<forall>w\<in>set (payload_records (fst pc)).
           \<exists>r\<in>set cursor. \<exists>tk. transform_record env tk r cols = Inr w)"
    proof
      assume "pc \<in> set (upserts es1)"
      with u1 show ?thesis by (meson in_set_takeD)
    next
      assume "pc \<in> set (upserts es2)"
      with u2 show ?thesis by (meson in_set_dropD)
    qed
  qed
  from tr pg cc al up show ?case by blast
qed

lemma import_loop_rows_pulled:
  "rows_pulled (trace (import_loop env up cols cursor st)) =
   rows_pulled (trace st) + length cursor"
proof -
  from import_loop_trace [of env up cols cursor st] obtain es ps where
    "trace (import_loop env up cols cursor st) = trace st @ es"
    "pages es = ps @ [[]]" "concat ps = cursor"
    by blast
  then show ?thesis
    by (simp add: rows_pulled_def pages_append)
qed

lemma log_simps [simp]:
  "imported (log es st) = imported st"
  "errors (log es st) = errors st"
  "error_samples (log es st) = error_samples st"
  "store (log es st) = store st"
  "trace (log es st) = trace st @ es"
  by (simp_all add: log_def)

lemma initial_state_simps [simp]:
  "imported (initial_state s) = 0"
  "errors (initial_state s) = 0"
  "error_samples (initial_state s) = []"
  "store (initial_state s) = s"
  "trace (initial_state s) = []"
  by (simp_all add: initial_state_def)

lemma rows_pulled_setup [simp]: "rows_pulled setup_duckdb = 0"
  by (simp add: rows_pulled_def setup_duckdb_def)

lemma rows_pulled_Nil [simp]: "rows_pulled [] = 0"
  by (simp add: rows_pulled_def)

lemma rows_pulled_other [simp]:
  "rows_pulled (Db_execute q # es) = rows_pulled es"
  "rows_pulled (Db_fetchone c # es) = rows_pulled es"
  "rows_pulled (Upsert t p k # es) = rows_pulled es"
  "rows_pulled (Print_records_to_import c # es) = rows_pulled es"
  "rows_pulled (Print_dry_run # es) = rows_pulled es"
  "rows_pulled (Input_continue c # es) = rows_pulled es"
  "rows_pulled (Print_aborted # es) = rows_pulled es"
  "rows_pulled (Print_import_complete i j xs # es) = rows_pulled es"
  "rows_pulled (Sys_exit n # es) = rows_pulled es"
  by (simp_all add: rows_pulled_def)

subsection \<open>The sample page\<close>

lemma sample_transform:
  "transform_record sample_env tk (sample_row i PNone) columns = Inr (sample_record i tk)"
  by (simp add: transform_record_def dict_zip_def columns_def sample_row_def array_fields_def
      subscript_def dict_get_def handle_json_def add_metadata_def OVERTURE_VERSION_def
      sample_record_def sample_env_def)

lemma short_row_fails:
  "transform_record sample_env tk [] columns = Inl (KeyError ''alternate_categories'')"
  by (simp add: transform_record_def dict_zip_def array_fields_def subscript_def dict_get_def)

lemma sample_record_id [simp]: "dict_get_default (sample_record i tk) ''id'' d = i"
  by (simp add: sample_record_def dict_get_default_def dict_get_def)

lemma has_id_sample [simp]: "has_id (sample_record i tk) = (i \<noteq> PNone)"
  by (simp add: has_id_def)

lemma sample_page:
  "process_page sample_env sample_upsert columns sample_rows
     \<lparr>imported = 0, errors = 0, error_samples = [], store = [], tick = 0, trace = es\<rparr> =
   \<lparr>imported = 2, errors = 2,
    error_samples =
      [''Transform error: '' @ sq ''alternate_categories'',
       ''Insert error for None: null value in column id violates not-null constraint''],
    store = [PStr ''08f2a5'', PStr ''08f2c7''], tick = 6,
    trace = es @
      Upsert ''places'' (Rows sample_batch) ''id'' #
      map (\<lambda>r. Upsert ''places'' (Row r) ''id'') sample_batch\<rparr>"
  by (simp add: process_page_def sample_transform short_row_fails write_batch_def
      sample_upsert_def sq_def sample_rows_def sample_batch_def)
     (simp add: sample_env_def eval_nat_numeral)

lemma length_sample_rows: "length sample_rows = 4"
  by (simp add: sample_rows_def)

lemma sample_run:
  "import_loop sample_env sample_upsert columns sample_rows
     \<lparr>imported = 0, errors = 0, error_samples = [], store = [], tick = 0, trace = es\<rparr> =
   \<lparr>imported = 2, errors = 2,
    error_samples =
      [''Transform error: '' @ sq ''alternate_categories'',
       ''Insert error for None: null value in column id violates not-null constraint''],
    store = [PStr ''08f2a5'', PStr ''08f2c7''], tick = 6,
    trace = es @
      Db_fetchmany 500 sample_rows #
      Upsert ''places'' (Rows sample_batch) ''id'' #
      map (\<lambda>r. Upsert ''places'' (Row r) ''id'') sample_batch @
      [Db_fetchmany 500 []]\<rparr>"
proof -
  have l: "length sample_rows = 4" and n: "sample_rows \<noteq> []"
    by (simp_all add: sample_rows_def)
  show ?thesis
    by (simp add: import_loop_step [OF n] import_loop_stop BATCH_SIZE_def l sample_page)
qed

section \<open>The bulk load pipeline: the counters\<close>

text \<open>
  Claim C3: at the end of every run of \<^verbatim>\<open>main\<close>, whatever the source delivers and
  whatever the store answers, \<^verbatim>\<open>imported\<close> plus \<^verbatim>\<open>errors\<close> is the number of rows that
  came back from \<^verbatim>\<open>fetchmany\<close>: each row pulled is counted once, as a transform error,
  as part of a batch that was written, or by its own write after the batch failed. The
  runs that stop before the loop pull no row and count none.
\<close>

theorem imported_plus_errors_eq_rows_pulled:
  "imported (main env w a s) + errors (main env w a s) = rows_pulled (trace (main env w a s))"
  by (simp add: main_def Let_def import_loop_count import_loop_rows_pulled
      rows_pulled_append)

text \<open>The sample page: four rows pulled, two imported, one transform error and one row
  the store refuses.\<close>

theorem imported_plus_errors_eq_rows_pulled_witness:
  "imported (main sample_env (sample_world sample_rows 0) (sample_args None False) []) = 2 \<and>
   errors (main sample_env (sample_world sample_rows 0) (sample_args None False) []) = 2 \<and>
   rows_pulled
     (trace (main sample_env (sample_world sample_rows 0) (sample_args None False) [])) = 4"
  using imported_plus_errors_eq_rows_pulled
    [of sample_env "sample_world sample_rows 0" "sample_args None False" "[]"]
  by (simp add: main_def Let_def credentials_missing_def sample_world_def sample_args_def
      log_def initial_state_def length_sample_rows sample_run)

section \<open>The bulk load pipeline: a page with no surviving record\<close>

text \<open>
  Claim C10: when every row of a fetched page fails the transform, the turn of the loop
  calls the store not at all: the trace, the store and \<^verbatim>\<open>imported\<close> are as before. When
  at least one row transforms, the first thing the turn does after the transform is one
  upsert of a non-empty batch into \<^verbatim>\<open>places\<close>.
\<close>

theorem no_write_for_empty_batch:
  "((\<forall>r\<in>set rows. isl (transform_record env 0 r cols)) \<longrightarrow>
      trace (process_page env up cols rows st) = trace st \<and>
      store (process_page env up cols rows st) = store st \<and>
      imported (process_page env up cols rows st) = imported st) \<and>
   ((\<exists>r\<in>set rows. \<not> isl (transform_record env 0 r cols)) \<longrightarrow>
      (\<exists>batch rest. batch \<noteq> [] \<and>
         trace (process_page env up cols rows st) =
           trace st @ Upsert ''places'' (Rows batch) ''id'' # rest))"
proof (intro conjI impI)
  assume a: "\<forall>r\<in>set rows. isl (transform_record env 0 r cols)"
  obtain b st' where p: "transform_rows env cols rows [] st = (b, st')"
    by (cases "transform_rows env cols rows [] st")
  from transform_rows_all_fail [OF a, of "[]" st] p have "b = []" by simp
  with p transform_rows_frame [OF p]
  show "trace (process_page env up cols rows st) = trace st"
    and "store (process_page env up cols rows st) = store st"
    and "imported (process_page env up cols rows st) = imported st"
    by (simp_all add: process_page_def write_batch_empty)
next
  assume a: "\<exists>r\<in>set rows. \<not> isl (transform_record env 0 r cols)"
  obtain b st' where p: "transform_rows env cols rows [] st = (b, st')"
    by (cases "transform_rows env cols rows [] st")
  from transform_rows_some_ok [OF a, of "[]" st] p have ne: "b \<noteq> []" by auto
  from write_batch_trace [of env up b st'] ne obtain rest where
    "trace (write_batch env up b st') = trace st' @ Upsert ''places'' (Rows b) ''id'' # rest"
    by auto
  with p transform_rows_frame [OF p] ne
  show "\<exists>batch rest. batch \<noteq> [] \<and>
         trace (process_page env up cols rows st) =
           trace st @ Upsert ''places'' (Rows batch) ''id'' # rest"
    by (auto simp: process_page_def)
qed

theorem no_write_for_empty_batch_witness:
  "isl (transform_record sample_env 0 [] columns) \<and>
   isl (transform_record sample_env 0 [PNone] columns) \<and>
   trace (process_page sample_env sample_upsert columns [[], [PNone]] (initial_state [])) = [] \<and>
   store (process_page sample_env sample_upsert columns [[], [PNone]] (initial_state [])) = [] \<and>
   (\<exists>r\<in>set sample_rows. \<not> isl (transform_record sample_env 0 r columns)) \<and>
   (\<exists>batch rest. batch \<noteq> [] \<and>
      trace (process_page sample_env sample_upsert columns sample_rows (initial_state [])) =
        Upsert ''places'' (Rows batch) ''id'' # rest)"
proof -
  have a: "\<forall>r\<in>set [[], [PNone]]. isl (transform_record sample_env 0 r columns)"
    by (simp add: transform_record_def dict_zip_def columns_def array_fields_def subscript_def
        dict_get_def)
  have b: "\<exists>r\<in>set sample_rows. \<not> isl (transform_record sample_env 0 r columns)"
    by (simp add: sample_rows_def sample_transform)
  from a b
    no_write_for_empty_batch
      [of "[[], [PNone]]" sample_env columns sample_upsert "initial_state []"]
    no_write_for_empty_batch [of sample_rows sample_env columns sample_upsert "initial_state []"]
  show ?thesis by simp
qed

section \<open>The bulk load pipeline: the fallback after a failed batch\<close>

text \<open>
  Claim C4: when the upsert of a non-empty batch raises, every record of the batch is
  written by a call of its own, in the order of the batch, whatever the calls before it
  answered; \<^verbatim>\<open>imported\<close> grows by the number of these calls that succeed and \<^verbatim>\<open>errors\<close>
  by the number that raise, the two adding up to the size of the batch; the samples grow
  by the descriptions of the failures (the \<^verbatim>\<open>id\<close> of the record and the text of the
  error), in order, as long as fewer than five samples are held, so that never more than
  five are kept.
\<close>

theorem fallback_isolates_failures:
  assumes "batch \<noteq> []"
    and "up (store st) ''places'' (Rows batch) ''id'' = (Some e, s')"
  shows "trace (write_batch env up batch st) =
           trace st @ Upsert ''places'' (Rows batch) ''id'' #
             map (\<lambda>r. Upsert ''places'' (Row r) ''id'') batch \<and>
         imported (write_batch env up batch st) =
           imported st + successes (outcomes up s' batch) \<and>
         errors (write_batch env up batch st) =
           errors st + failures (outcomes up s' batch) \<and>
         successes (outcomes up s' batch) + failures (outcomes up s' batch) = length batch \<and>
         error_samples (write_batch env up batch st) =
           error_samples st @
             take (5 - length (error_samples st))
               (failure_descriptions env (outcomes up s' batch)) \<and>
         (length (error_samples st) \<le> 5 \<longrightarrow>
            length (error_samples (write_batch env up batch st)) \<le> 5)"
  using assms write_batch_samples [of st env up batch]
  by (simp add: write_batch_failed upsert_each_trace upsert_each_imported upsert_each_errors
      upsert_each_samples successes_failures length_outcomes)

theorem fallback_isolates_failures_witness:
  "sample_batch \<noteq> [] \<and>
   sample_upsert [] ''places'' (Rows sample_batch) ''id'' =
     (Some (Raised ''null value in column id violates not-null constraint''), []) \<and>
   trace (write_batch sample_env sample_upsert sample_batch (initial_state [])) =
     Upsert ''places'' (Rows sample_batch) ''id'' #
     map (\<lambda>r. Upsert ''places'' (Row r) ''id'') sample_batch \<and>
   imported (write_batch sample_env sample_upsert sample_batch (initial_state [])) = 2 \<and>
   errors (write_batch sample_env sample_upsert sample_batch (initial_state [])) = 1 \<and>
   error_samples (write_batch sample_env sample_upsert sample_batch (initial_state [])) =
     [''Insert error for None: null value in column id violates not-null constraint'']"
proof -
  have a: "sample_batch \<noteq> []"
    by (simp add: sample_batch_def)
  have b: "sample_upsert (store (initial_state [])) ''places'' (Rows sample_batch) ''id'' =
     (Some (Raised ''null value in column id violates not-null constraint''), [])"
    by (simp add: sample_batch_def sample_upsert_def)
  have c: "outcomes sample_upsert [] sample_batch =
     [(sample_record (PStr ''08f2a5'') 0, None),
      (sample_record PNone 2,
       Some (Raised ''null value in column id violates not-null constraint'')),
      (sample_record (PStr ''08f2c7'') 4, None)]"
    by (simp add: sample_batch_def sample_upsert_def)
  have d: "py_str sample_env PNone = ''None''"
    by (simp add: sample_env_def)
  from a b
    fallback_isolates_failures
      [of sample_batch sample_upsert "initial_state []"
          "Raised ''null value in column id violates not-null constraint''" "[]" sample_env]
  show ?thesis
    by (simp add: c d successes_def failures_def)
qed

section \<open>The bulk load pipeline: the identifier\<close>

text \<open>
  Claim C9: the record \<^verbatim>\<open>transform_record\<close> returns carries the \<^verbatim>\<open>id\<close> of the row
  unchanged; every upsert of the loop names \<^verbatim>\<open>id\<close> as its conflict key, and every record
  it sends is the transform of a row of the source, with the \<^verbatim>\<open>id\<close> of that row.
\<close>

theorem id_preserved:
  "(\<forall>r tk w. transform_record env tk r cols = Inr w \<longrightarrow>
       dict_get w ''id'' = dict_get (dict_zip cols r) ''id'') \<and>
   (\<exists>es. trace (import_loop env up cols cursor st) = trace st @ es \<and>
      (\<forall>pc\<in>set (upserts es). snd pc = ''id'' \<and>
         (\<forall>w\<in>set (payload_records (fst pc)).
            \<exists>r\<in>set cursor. \<exists>tk. transform_record env tk r cols = Inr w \<and>
               dict_get w ''id'' = dict_get (dict_zip cols r) ''id'')))"
proof -
  have a: "dict_get w ''id'' = dict_get (dict_zip cols r) ''id''"
    if "transform_record env tk r cols = Inr w" for r tk w
    by (rule transform_record_other [OF that id_not_array]) (simp_all add: metadata_keys_def)
  from import_loop_trace [of env up cols cursor st] obtain es where
    t: "trace (import_loop env up cols cursor st) = trace st @ es" and
    u: "\<forall>pc\<in>set (upserts es). snd pc = ''id'' \<and>
        (\<forall>w\<in>set (payload_records (fst pc)).
           \<exists>r\<in>set cursor. \<exists>tk. transform_record env tk r cols = Inr w)"
    by blast
  have "\<forall>pc\<in>set (upserts es). snd pc = ''id'' \<and>
         (\<forall>w\<in>set (payload_records (fst pc)).
            \<exists>r\<in>set cursor. \<exists>tk. transform_record env tk r cols = Inr w \<and>
               dict_get w ''id'' = dict_get (dict_zip cols r) ''id'')"
    using u a by meson
  with t a show ?thesis by blast
qed

theorem id_preserved_witness:
  "transform_record sample_env 0 (sample_row (PStr ''08f2a5'') PNone) columns =
     Inr (sample_record (PStr ''08f2a5'') 0) \<and>
   dict_get (sample_record (PStr ''08f2a5'') 0) ''id'' =
     dict_get (dict_zip columns (sample_row (PStr ''08f2a5'') PNone)) ''id'' \<and>
   dict_get (dict_zip columns (sample_row (PStr ''08f2a5'') PNone)) ''id'' =
     Some (PStr ''08f2a5'') \<and>
   upserts (trace (import_loop sample_env sample_upsert columns sample_rows (initial_state []))) =
     (Rows sample_batch, ''id'') # map (\<lambda>r. (Row r, ''id'')) sample_batch \<and>
   (\<exists>es. trace (import_loop sample_env sample_upsert columns sample_rows (initial_state [])) = es \<and>
      (\<forall>pc\<in>set (upserts es). snd pc = ''id'' \<and>
         (\<forall>w\<in>set (payload_records (fst pc)).
            \<exists>r\<in>set sample_rows. \<exists>tk. transform_record sample_env tk r columns = Inr w \<and>
               dict_get w ''id'' = dict_get (dict_zip columns r) ''id'')))"
proof -
  note t = id_preserved [of sample_env columns sample_upsert sample_rows "initial_state []"]
  have a: "transform_record sample_env 0 (sample_row (PStr ''08f2a5'') PNone) columns =
     Inr (sample_record (PStr ''08f2a5'') 0)"
    by (rule sample_transform)
  from t a have b: "dict_get (sample_record (PStr ''08f2a5'') 0) ''id'' =
     dict_get (dict_zip columns (sample_row (PStr ''08f2a5'') PNone)) ''id''"
    by blast
  have c: "dict_get (dict_zip columns (sample_row (PStr ''08f2a5'') PNone)) ''id'' =
     Some (PStr ''08f2a5'')"
    by (simp add: dict_zip_def columns_def sample_row_def dict_get_def)
  have d: "upserts (trace (import_loop sample_env sample_upsert columns sample_rows
       (initial_state []))) =
     (Rows sample_batch, ''id'') # map (\<lambda>r. (Row r, ''id'')) sample_batch"
    by (simp add: initial_state_def sample_run sample_batch_def)
  from t have e: "\<exists>es. trace (import_loop sample_env sample_upsert columns sample_rows
        (initial_state [])) = es \<and>
      (\<forall>pc\<in>set (upserts es). snd pc = ''id'' \<and>
         (\<forall>w\<in>set (payload_records (fst pc)).
            \<exists>r\<in>set sample_rows. \<exists>tk. transform_record sample_env tk r columns = Inr w \<and>
               dict_get w ''id'' = dict_get (dict_zip columns r) ''id''))"
    by simp
  from a b c d e show ?thesis by blast
qed

end
